theory Spec2Isabelle
  imports Complex_Main "HOL-Library.List_Lexorder" "HOL-Library.Char_ord"
    "HOL-Library.Product_Lexorder"
begin

section \<open>Numbers and errors\<close>

text \<open>
  The analysis in \<^verbatim>\<open>analyze_risk.py\<close> works on float64 columns. A float64 value is
  modelled as a finite real number or one of the three special values of IEEE 754 that
  the pipeline can produce and that pandas treats as data (\<open>inf\<close>, \<open>-inf\<close>) or as
  missing (\<open>nan\<close>). Arithmetic on finite values is exact: rounding, overflow and the
  sign of zero are not modelled.
\<close>

datatype flt = Fin real | PInf | NInf | NaN

datatype py_error = ValueError | IndexError | TypeError | LinAlgError

fun fneg :: "flt \<Rightarrow> flt" where
  "fneg (Fin a) = Fin (- a)"
| "fneg PInf = NInf"
| "fneg NInf = PInf"
| "fneg NaN = NaN"

fun fadd :: "flt \<Rightarrow> flt \<Rightarrow> flt" where
  "fadd NaN _ = NaN"
| "fadd _ NaN = NaN"
| "fadd (Fin a) (Fin b) = Fin (a + b)"
| "fadd PInf NInf = NaN"
| "fadd NInf PInf = NaN"
| "fadd PInf _ = PInf"
| "fadd _ PInf = PInf"
| "fadd NInf _ = NInf"
| "fadd _ NInf = NInf"

fun fmul :: "flt \<Rightarrow> flt \<Rightarrow> flt" where
  "fmul NaN _ = NaN"
| "fmul _ NaN = NaN"
| "fmul (Fin a) (Fin b) = Fin (a * b)"
| "fmul (Fin a) PInf = (if a = 0 then NaN else if 0 < a then PInf else NInf)"
| "fmul (Fin a) NInf = (if a = 0 then NaN else if 0 < a then NInf else PInf)"
| "fmul PInf (Fin b) = (if b = 0 then NaN else if 0 < b then PInf else NInf)"
| "fmul NInf (Fin b) = (if b = 0 then NaN else if 0 < b then NInf else PInf)"
| "fmul PInf PInf = PInf"
| "fmul NInf NInf = PInf"
| "fmul PInf NInf = NInf"
| "fmul NInf PInf = NInf"

text \<open>
  Division of numpy float64 scalars and columns never raises: a zero divisor gives
  \<open>inf\<close>, \<open>-inf\<close> or \<open>nan\<close> (with a warning only).
\<close>

fun fdiv :: "flt \<Rightarrow> flt \<Rightarrow> flt" where
  "fdiv NaN _ = NaN"
| "fdiv _ NaN = NaN"
| "fdiv (Fin a) (Fin b) =
     (if b \<noteq> 0 then Fin (a / b)
      else if a = 0 then NaN else if 0 < a then PInf else NInf)"
| "fdiv (Fin a) PInf = Fin 0"
| "fdiv (Fin a) NInf = Fin 0"
| "fdiv PInf (Fin b) = (if 0 \<le> b then PInf else NInf)"
| "fdiv NInf (Fin b) = (if 0 \<le> b then NInf else PInf)"
| "fdiv PInf PInf = NaN"
| "fdiv PInf NInf = NaN"
| "fdiv NInf PInf = NaN"
| "fdiv NInf NInf = NaN"

text \<open>\<^verbatim>\<open>np.log\<close>: \<open>-inf\<close> at zero, \<open>nan\<close> on negative arguments.\<close>

fun flog :: "flt \<Rightarrow> flt" where
  "flog (Fin a) = (if 0 < a then Fin (ln a) else if a = 0 then NInf else NaN)"
| "flog PInf = PInf"
| "flog NInf = NaN"
| "flog NaN = NaN"

section \<open>Tail risk: \<^verbatim>\<open>compute_var_es\<close>\<close>

text \<open>
  \<^verbatim>\<open>np.quantile(r, q)\<close> with the default method \<^verbatim>\<open>'linear'\<close>, on a series of finite
  values: \<open>q\<close> outside \<open>[0, 1]\<close> raises \<^verbatim>\<open>ValueError\<close>; otherwise the virtual index
  \<open>(n - 1) * q\<close> is split into its floor and the fractional part \<open>gamma\<close>, and the result
  interpolates between the two neighbouring order statistics; a virtual index at the upper
  bound takes the maximum. On an empty array the lookup of the last element fails.
\<close>

definition quantile :: "real list \<Rightarrow> real \<Rightarrow> py_error + real" where
  "quantile a q =
     (if q < 0 \<or> 1 < q then Inl ValueError
      else if a = [] then Inl IndexError
      else
        let arr = sort a;
            n = length arr;
            virtual_index = real (n - 1) * q;
            previous_index = nat \<lfloor>virtual_index\<rfloor>;
            gamma = virtual_index - real previous_index
        in if real (n - 1) \<le> virtual_index then Inr (arr ! (n - 1))
           else Inr (arr ! previous_index +
                     (arr ! (previous_index + 1) - arr ! previous_index) * gamma))"

text \<open>\<^verbatim>\<open>ndarray.mean()\<close>: \<open>nan\<close> on an empty array.\<close>

definition mean :: "real list \<Rightarrow> flt" where
  "mean xs = (if xs = [] then NaN else Fin (sum_list xs / real (length xs)))"

definition compute_var_es :: "real list \<Rightarrow> real \<Rightarrow> py_error + (real \<times> flt)" where
  "compute_var_es r confidence =
     (case quantile r (1 - confidence) of
        Inl e \<Rightarrow> Inl e
      | Inr var_threshold \<Rightarrow>
          let var = - var_threshold;
              tail_losses = filter (\<lambda>x. x < var_threshold) r;
              es = (if 0 < length tail_losses then fneg (mean tail_losses) else NaN)
          in Inr (var, es))"

text \<open>
  The specification's wording of the estimator, for comparison with \<^const>\<open>quantile\<close>:
  the empirical quantile at level \<open>p\<close> by linear interpolation on the sorted sample
  \<open>x\<^sub>0 \<le> \<dots> \<le> x\<^sub>n\<^sub>-\<^sub>1\<close> is the value at position \<open>h = p * (n - 1)\<close> of the
  piecewise linear curve through the points \<open>(k, x\<^sub>k)\<close>.
\<close>

definition interpolated_quantile_spec :: "real list \<Rightarrow> real \<Rightarrow> real" where
  "interpolated_quantile_spec xs p =
     (let s = sort xs;
          h = p * real (length xs - 1);
          lo = nat \<lfloor>h\<rfloor>;
          hi = nat \<lceil>h\<rceil>;
          g = h - real lo
      in (1 - g) * s ! lo + g * s ! hi)"

definition sample10 :: "real list" where
  "sample10 = [-5/100, -3/100, -1/100, 1/100, 2/100, 3/100, 4/100, 5/100, 6/100, 7/100]"

section \<open>Return calculator: \<^verbatim>\<open>compute_asset_returns\<close>\<close>

text \<open>Rows of the long price table and of the long return table.\<close>

record price_obs =
  p_date :: string
  p_asset :: string
  adj_close :: flt

record asset_return =
  r_date :: string
  r_asset :: string
  r_return :: flt

text \<open>
  A wide table: the row labels (dates), the column labels (assets) and one list of cells
  per row label, in column order.
\<close>

record frame =
  index :: "string list"
  columns :: "string list"
  cells :: "flt list list"

text \<open>
  The cell that \<^verbatim>\<open>pivot\<close> places at a date and an asset: the price of the row with that
  key, \<open>nan\<close> where the long table has no such row.
\<close>

definition lookup_cell :: "price_obs list \<Rightarrow> string \<Rightarrow> string \<Rightarrow> flt" where
  "lookup_cell prices d a =
     (case filter (\<lambda>p. p_date p = d \<and> p_asset p = a) prices of
        [] \<Rightarrow> NaN
      | p # _ \<Rightarrow> adj_close p)"

text \<open>
  \<^verbatim>\<open>prices.pivot(index='date', columns='asset', values='adj_close')\<close>: raises
  \<^verbatim>\<open>ValueError\<close> when a (date, asset) key occurs twice; row and column labels come out
  sorted and without duplicates.
\<close>

definition pivot :: "price_obs list \<Rightarrow> py_error + frame" where
  "pivot prices =
     (if \<not> distinct (map (\<lambda>p. (p_date p, p_asset p)) prices) then Inl ValueError
      else
        let idx = sort (remdups (map p_date prices));
            cols = sort (remdups (map p_asset prices))
        in Inr \<lparr>index = idx, columns = cols,
                cells = map (\<lambda>d. map (\<lambda>a. lookup_cell prices d a) cols) idx\<rparr>)"

definition sort_index :: "frame \<Rightarrow> frame" where
  "sort_index f =
     (let rows = sort_key fst (zip (index f) (cells f))
      in f\<lparr>index := map fst rows, cells := map snd rows\<rparr>)"

text \<open>\<^verbatim>\<open>wide.shift(1)\<close>: every row moves down by one, the first row becomes \<open>nan\<close>.\<close>

definition shift1 :: "frame \<Rightarrow> frame" where
  "shift1 f =
     f\<lparr>cells := take (length (cells f)) (replicate (length (columns f)) NaN # cells f)\<rparr>"

definition frame_div :: "frame \<Rightarrow> frame \<Rightarrow> frame" where
  "frame_div f g = f\<lparr>cells := map2 (map2 fdiv) (cells f) (cells g)\<rparr>"

definition frame_log :: "frame \<Rightarrow> frame" where
  "frame_log f = f\<lparr>cells := map (map flog) (cells f)\<rparr>"

text \<open>\<^verbatim>\<open>dropna()\<close>: a row with a \<open>nan\<close> in any column is removed.\<close>

definition dropna :: "frame \<Rightarrow> frame" where
  "dropna f =
     (let rows = filter (\<lambda>(d, row). NaN \<notin> set row) (zip (index f) (cells f))
      in f\<lparr>index := map fst rows, cells := map snd rows\<rparr>)"

text \<open>
  \<^verbatim>\<open>reset_index().melt(id_vars='date', ...)\<close>: column after column, one long row per
  remaining date.
\<close>

definition melt :: "frame \<Rightarrow> asset_return list" where
  "melt f =
     concat (map (\<lambda>(j, a). map (\<lambda>(d, row). \<lparr>r_date = d, r_asset = a, r_return = row ! j\<rparr>)
                                (zip (index f) (cells f)))
                 (enumerate 0 (columns f)))"

definition compute_asset_returns :: "price_obs list \<Rightarrow> py_error + asset_return list" where
  "compute_asset_returns prices =
     (case pivot prices of
        Inl e \<Rightarrow> Inl e
      | Inr w \<Rightarrow>
          let wide = sort_index w;
              returns = dropna (frame_log (frame_div wide (shift1 wide)));
              ret_long = melt returns
          in Inr ret_long)"

text \<open>A non-missing price of an asset on a date.\<close>

definition has_price :: "price_obs list \<Rightarrow> string \<Rightarrow> string \<Rightarrow> bool" where
  "has_price prices d a =
     (\<exists>p\<in>set prices. p_date p = d \<and> p_asset p = a \<and> adj_close p \<noteq> NaN)"

text \<open>The finite value of a price (zero for the special values).\<close>

definition price_of :: "price_obs \<Rightarrow> real" where
  "price_of p = (case adj_close p of Fin v \<Rightarrow> v | _ \<Rightarrow> 0)"

text \<open>The observations of one asset in the price table, and its rows in the output.\<close>

definition observations_of :: "price_obs list \<Rightarrow> string \<Rightarrow> price_obs list" where
  "observations_of prices a = filter (\<lambda>p. p_asset p = a) prices"

definition returns_of_asset :: "asset_return list \<Rightarrow> string \<Rightarrow> asset_return list" where
  "returns_of_asset out a = filter (\<lambda>x. r_asset x = a) out"

text \<open>
  The specification's wording of the return calculator, for comparison: for one asset
  alone, sort that asset's observations by date and give one return
  \<open>ln (price[t] / price[t-1])\<close> per consecutive pair.
\<close>

definition per_asset_returns_spec :: "price_obs list \<Rightarrow> string \<Rightarrow> asset_return list" where
  "per_asset_returns_spec prices a =
     (let obs = sort_key p_date (observations_of prices a)
      in map (\<lambda>(prev, cur). \<lparr>r_date = p_date cur, r_asset = a,
                              r_return = Fin (ln (price_of cur / price_of prev))\<rparr>)
             (zip obs (tl obs)))"

text \<open>Example tables.\<close>

definition prices_two_assets :: "price_obs list" where
  "prices_two_assets =
     [\<lparr>p_date = ''2020-01-02'', p_asset = ''AAPL'', adj_close = Fin 100\<rparr>,
      \<lparr>p_date = ''2020-01-03'', p_asset = ''AAPL'', adj_close = Fin 110\<rparr>,
      \<lparr>p_date = ''2020-01-02'', p_asset = ''SPX'', adj_close = Fin 50\<rparr>,
      \<lparr>p_date = ''2020-01-03'', p_asset = ''SPX'', adj_close = Fin 55\<rparr>]"

definition prices_gap :: "price_obs list" where
  "prices_gap =
     [\<lparr>p_date = ''2020-01-02'', p_asset = ''AAPL'', adj_close = Fin 100\<rparr>,
      \<lparr>p_date = ''2020-01-03'', p_asset = ''AAPL'', adj_close = Fin 110\<rparr>,
      \<lparr>p_date = ''2020-01-03'', p_asset = ''SPX'', adj_close = Fin 50\<rparr>]"

text \<open>
  The cell of the log-return table at the \<open>i\<close>-th date and an asset, written out: the
  price at that date over the price one row above, which is \<open>nan\<close> for the first row.
\<close>

definition ret_cell :: "price_obs list \<Rightarrow> string list \<Rightarrow> nat \<Rightarrow> string \<Rightarrow> flt" where
  "ret_cell prices idx i a =
     flog (fdiv (lookup_cell prices (idx ! i) a)
                (if i = 0 then NaN else lookup_cell prices (idx ! (i - 1)) a))"

definition table_dates :: "price_obs list \<Rightarrow> string list" where
  "table_dates prices = sort (remdups (map p_date prices))"

definition table_assets :: "price_obs list \<Rightarrow> string list" where
  "table_assets prices = sort (remdups (map p_asset prices))"

text \<open>The rows of the log-return table that \<^verbatim>\<open>dropna\<close> keeps, by position.\<close>

definition kept_rows :: "price_obs list \<Rightarrow> nat list" where
  "kept_rows prices =
     filter (\<lambda>i. \<forall>a\<in>set (table_assets prices).
                  ret_cell prices (table_dates prices) i a \<noteq> NaN)
            [0..<length (table_dates prices)]"

text \<open>
  Tables the return calculator is meant for: keys are unique, every asset has a price on
  every date of the table, and prices are positive finite numbers.
\<close>

definition unique_keys :: "price_obs list \<Rightarrow> bool" where
  "unique_keys prices = distinct (map (\<lambda>p. (p_date p, p_asset p)) prices)"

definition complete_table :: "price_obs list \<Rightarrow> bool" where
  "complete_table prices =
     (\<forall>d\<in>set (table_dates prices). \<forall>a\<in>set (table_assets prices).
        \<exists>p\<in>set prices. p_date p = d \<and> p_asset p = a)"

definition positive_prices :: "price_obs list \<Rightarrow> bool" where
  "positive_prices prices =
     (\<forall>p\<in>set prices. case adj_close p of Fin v \<Rightarrow> 0 < v | _ \<Rightarrow> False)"

section \<open>Portfolio aggregator: \<^verbatim>\<open>build_portfolio_returns\<close>\<close>

record position =
  pos_fund_id :: int
  pos_asset :: string
  quantity :: flt

text \<open>A row of \<^verbatim>\<open>returns.merge(positions, on='asset', how='inner')\<close>.\<close>

record merged_row =
  m_date :: string
  m_asset :: string
  m_return :: flt
  m_fund_id :: int
  m_quantity :: flt

record portfolio_row =
  pr_date :: string
  pr_fund_id :: int
  portfolio_return :: flt

text \<open>
  The inner join on the asset: every return row is paired with every position of the
  same asset, in the order of the return rows.
\<close>

definition merge_on_asset :: "asset_return list \<Rightarrow> position list \<Rightarrow> merged_row list" where
  "merge_on_asset returns positions =
     concat (map (\<lambda>r. map (\<lambda>p. \<lparr>m_date = r_date r, m_asset = r_asset r, m_return = r_return r,
                                   m_fund_id = pos_fund_id p, m_quantity = quantity p\<rparr>)
                            (filter (\<lambda>p. pos_asset p = r_asset r) positions))
                 returns)"

text \<open>The derived column \<^verbatim>\<open>merged['return'] * merged['quantity']\<close>.\<close>

definition weighted_return :: "merged_row \<Rightarrow> flt" where
  "weighted_return m = fmul (m_return m) (m_quantity m)"

text \<open>\<^verbatim>\<open>Series.sum()\<close>: missing values are skipped, the empty sum is zero.\<close>

definition nansum :: "flt list \<Rightarrow> flt" where
  "nansum xs = foldr fadd (filter (\<lambda>x. x \<noteq> NaN) xs) (Fin 0)"

text \<open>The rows of one (date, fund) group of the merged table.\<close>

definition group_rows :: "merged_row list \<Rightarrow> string \<Rightarrow> int \<Rightarrow> merged_row list" where
  "group_rows merged d f = filter (\<lambda>m. m_date m = d \<and> m_fund_id m = f) merged"

text \<open>
  \<^verbatim>\<open>groupby(['date', 'fund_id'])\<close> yields the groups in sorted key order; the lambda
  divides the two sums as float64 scalars. On an empty merged table \<^verbatim>\<open>apply\<close> gives back
  an empty frame instead of a series, and \<^verbatim>\<open>reset_index(name=...)\<close> raises
  \<^verbatim>\<open>TypeError\<close> on it.
\<close>

definition build_portfolio_returns ::
    "asset_return list \<Rightarrow> position list \<Rightarrow> py_error + portfolio_row list" where
  "build_portfolio_returns returns positions =
     (let merged = merge_on_asset returns positions;
          keys = sort (remdups (map (\<lambda>m. (m_date m, m_fund_id m)) merged))
      in if merged = [] then Inl TypeError
         else Inr (map (\<lambda>(d, f).
                      let df = group_rows merged d f
                      in \<lparr>pr_date = d, pr_fund_id = f,
                          portfolio_return = fdiv (nansum (map weighted_return df))
                                                  (nansum (map m_quantity df))\<rparr>)
                    keys))"

text \<open>Finite entries, and the real value of a finite entry.\<close>

definition is_fin :: "flt \<Rightarrow> bool" where
  "is_fin x = (case x of Fin _ \<Rightarrow> True | _ \<Rightarrow> False)"

definition the_fin :: "flt \<Rightarrow> real" where
  "the_fin x = (case x of Fin v \<Rightarrow> v | _ \<Rightarrow> 0)"

definition finite_returns :: "asset_return list \<Rightarrow> bool" where
  "finite_returns returns = (\<forall>r\<in>set returns. is_fin (r_return r))"

definition finite_quantities :: "position list \<Rightarrow> bool" where
  "finite_quantities positions = (\<forall>p\<in>set positions. is_fin (quantity p))"

text \<open>The two sums of a group, over finite entries.\<close>

definition weighted_sum :: "merged_row list \<Rightarrow> real" where
  "weighted_sum df = (\<Sum>m\<leftarrow>df. the_fin (m_return m) * the_fin (m_quantity m))"

definition quantity_sum :: "merged_row list \<Rightarrow> real" where
  "quantity_sum df = (\<Sum>m\<leftarrow>df. the_fin (m_quantity m))"



definition returns_long_short :: "asset_return list" where
  "returns_long_short =
     [\<lparr>r_date = ''2020-01-03'', r_asset = ''A'', r_return = Fin (1/100)\<rparr>,
      \<lparr>r_date = ''2020-01-03'', r_asset = ''B'', r_return = Fin (2/100)\<rparr>]"

definition positions_long_short :: "position list" where
  "positions_long_short =
     [\<lparr>pos_fund_id = 2, pos_asset = ''A'', quantity = Fin 100\<rparr>,
      \<lparr>pos_fund_id = 2, pos_asset = ''B'', quantity = Fin (-100)\<rparr>]"

definition returns_unheld :: "asset_return list" where
  "returns_unheld = [\<lparr>r_date = ''2020-01-03'', r_asset = ''AMZN'', r_return = Fin (1/100)\<rparr>]"

definition positions_unheld :: "position list" where
  "positions_unheld = [\<lparr>pos_fund_id = 3, pos_asset = ''AMZN'', quantity = Fin 0\<rparr>]"

section \<open>Report renderer: \<^verbatim>\<open>plot_cumulative_returns\<close>\<close>

text \<open>\<^verbatim>\<open>np.exp\<close> on float64.\<close>

fun fexp :: "flt \<Rightarrow> flt" where
  "fexp (Fin a) = Fin (exp a)"
| "fexp PInf = PInf"
| "fexp NInf = Fin 0"
| "fexp NaN = NaN"

text \<open>
  \<^verbatim>\<open>Series.cumsum()\<close>: the running sum; a missing value stays missing in the output and
  is skipped by the running sum.
\<close>

fun cumsum_from :: "flt \<Rightarrow> flt list \<Rightarrow> flt list" where
  "cumsum_from acc [] = []"
| "cumsum_from acc (x # xs) =
     (if x = NaN then NaN # cumsum_from acc xs
      else fadd acc x # cumsum_from (fadd acc x) xs)"

definition cumsum :: "flt list \<Rightarrow> flt list" where
  "cumsum xs = cumsum_from (Fin 0) xs"

text \<open>
  The function draws and saves a chart and returns nothing; the model returns the curve it
  hands to \<^verbatim>\<open>plt.plot\<close>: the dates of the fund, sorted, each with its cumulative return.
  \<^verbatim>\<open>sort_values\<close> is modelled by a stable sort; the dates of one fund are distinct in the
  output of \<^verbatim>\<open>build_portfolio_returns\<close>.
\<close>

definition plot_cumulative_returns :: "portfolio_row list \<Rightarrow> int \<Rightarrow> (string \<times> flt) list" where
  "plot_cumulative_returns portfolio_returns fund_id =
     (let fund_data = filter (\<lambda>r. pr_fund_id r = fund_id) portfolio_returns;
          fund_data = sort_key pr_date fund_data;
          cum_returns = map (\<lambda>s. fadd (fexp s) (fneg (Fin 1)))
                            (cumsum (map portfolio_return fund_data))
      in zip (map pr_date fund_data) cum_returns)"






definition portfolio_flat :: "portfolio_row list" where
  "portfolio_flat =
     [\<lparr>pr_date = ''2020-01-06'', pr_fund_id = 1, portfolio_return = Fin 0\<rparr>,
      \<lparr>pr_date = ''2020-01-03'', pr_fund_id = 2, portfolio_return = Fin (1/100)\<rparr>,
      \<lparr>pr_date = ''2020-01-03'', pr_fund_id = 1, portfolio_return = Fin 0\<rparr>]"

section \<open>Factor exposures: \<^verbatim>\<open>estimate_factor_exposures\<close>\<close>














section \<open>Orchestrator: the per-fund loop of \<^verbatim>\<open>main\<close>\<close>


record fund =
  fund_id :: int
  fund_name :: string














section \<open>Facts about the quantile and the tail\<close>

lemma interp_floor_ceiling:
  fixes h :: real and s :: "real list"
  assumes h0: "0 \<le> h"
  shows "(1 - (h - real (nat \<lfloor>h\<rfloor>))) * s ! nat \<lfloor>h\<rfloor> + (h - real (nat \<lfloor>h\<rfloor>)) * s ! nat \<lceil>h\<rceil>
       = s ! nat \<lfloor>h\<rfloor> + (s ! (nat \<lfloor>h\<rfloor> + 1) - s ! nat \<lfloor>h\<rfloor>) * (h - real (nat \<lfloor>h\<rfloor>))"
proof (cases "h = of_int \<lfloor>h\<rfloor>")
  case True
  then have "h - real (nat \<lfloor>h\<rfloor>) = 0" using h0 by simp
  then show ?thesis by simp
next
  case False
  then have "\<lceil>h\<rceil> = \<lfloor>h\<rfloor> + 1" by (simp add: ceiling_altdef)
  then have "nat \<lceil>h\<rceil> = nat \<lfloor>h\<rfloor> + 1" using h0 by (simp add: nat_add_distrib)
  then show ?thesis by (simp add: algebra_simps)
qed

lemma quantile_spec_eq:
  assumes "r \<noteq> []" "0 \<le> q" "q \<le> 1"
  shows "quantile r q = Inr (interpolated_quantile_spec r q)"
proof -
  define m where "m = length r - 1"
  define h where "h = real m * q"
  define s where "s = sort r"
  have h0: "0 \<le> h" using assms by (simp add: h_def)
  have h1: "h \<le> real m" using assms unfolding h_def by (simp add: mult_left_le)
  have Q: "quantile r q = (if real m \<le> h then Inr (s ! m)
       else Inr (s ! nat \<lfloor>h\<rfloor> + (s ! (nat \<lfloor>h\<rfloor> + 1) - s ! nat \<lfloor>h\<rfloor>) * (h - real (nat \<lfloor>h\<rfloor>))))"
  proof -
    have nq: "\<not> (q < 0 \<or> 1 < q)" using assms by simp
    show ?thesis unfolding quantile_def Let_def m_def h_def s_def length_sort
      by (simp only: nq assms(1) if_False)
  qed
  have S: "interpolated_quantile_spec r q =
      (1 - (h - real (nat \<lfloor>h\<rfloor>))) * s ! nat \<lfloor>h\<rfloor> + (h - real (nat \<lfloor>h\<rfloor>)) * s ! nat \<lceil>h\<rceil>"
    unfolding interpolated_quantile_spec_def Let_def m_def h_def s_def by (simp add: mult.commute)
  show ?thesis
  proof (cases "real m \<le> h")
    case True
    then have hm: "h = real m" using h1 by simp
    have "nat \<lfloor>h\<rfloor> = m" "nat \<lceil>h\<rceil> = m" unfolding hm by simp_all
    then have "interpolated_quantile_spec r q = s ! m" unfolding S by (simp add: hm)
    then show ?thesis using True Q by simp
  next
    case False
    then show ?thesis unfolding Q S using interp_floor_ceiling[OF h0, of s] by simp
  qed
qed

lemma quantile_out_of_range: "q < 0 \<or> 1 < q \<Longrightarrow> quantile r q = Inl ValueError"
  by (simp add: quantile_def)

lemma compute_var_es_unfold:
  "quantile r (1 - c) = Inr thr \<Longrightarrow>
   compute_var_es r c =
     Inr (- thr, if filter (\<lambda>x. x < thr) r = [] then NaN
                 else Fin (- (sum_list (filter (\<lambda>x. x < thr) r) /
                              real (length (filter (\<lambda>x. x < thr) r)))))"
  by (simp add: compute_var_es_def Let_def mean_def)

lemma quantile_sample10: "quantile sample10 (1 - 95/100) = Inr (- 41/1000)"
  by (simp add: quantile_def sample10_def Let_def)

lemma compute_var_es_sample10:
  "compute_var_es sample10 (95/100) = Inr (41/1000, Fin (5/100))"
  unfolding compute_var_es_unfold[OF quantile_sample10] by (simp add: sample10_def)

lemma quantile_singleton: "quantile [1/100] (1 - 95/100) = Inr (1/100)"
  by (simp add: quantile_def Let_def)

lemma sum_list_below:
  "xs \<noteq> [] \<Longrightarrow> \<forall>x\<in>set xs. x < (t::real) \<Longrightarrow> sum_list xs < t * real (length xs)"
proof (induction xs)
  case Nil then show ?case by simp
next
  case (Cons a xs)
  show ?case
  proof (cases "xs = []")
    case True then show ?thesis using Cons.prems by simp
  next
    case False
    then have "sum_list xs < t * real (length xs)" using Cons by simp
    moreover have "a < t" using Cons.prems by simp
    ultimately show ?thesis by (simp add: algebra_simps)
  qed
qed

section \<open>Claims about the tail-risk estimator\<close>

text \<open>
  C3. For a non-empty return series and a confidence level \<open>c\<close> in \<open>[0, 1]\<close>,
  \<^verbatim>\<open>compute_var_es\<close> returns normally and its VaR is the negative of the empirical
  quantile at level \<open>1 - c\<close> obtained by linear interpolation on the sorted sample. For the
  ten-point series of the specification at \<open>c = 0.95\<close> the interpolated 5th percentile is
  \<open>-0.041\<close> and the VaR is \<open>0.041\<close>.
\<close>

theorem compute_var_es_var_interpolated:
  "(r \<noteq> [] \<and> 0 \<le> c \<and> c \<le> 1 \<longrightarrow>
      (\<exists>es. compute_var_es r c = Inr (- interpolated_quantile_spec r (1 - c), es)))
   \<and> interpolated_quantile_spec sample10 (1 - 95/100) = - 41/1000
   \<and> (\<exists>es. compute_var_es sample10 (95/100) = Inr (41/1000, es))"
proof (intro conjI impI)
  assume a: "r \<noteq> [] \<and> 0 \<le> c \<and> c \<le> 1"
  then have "quantile r (1 - c) = Inr (interpolated_quantile_spec r (1 - c))"
    by (intro quantile_spec_eq) simp_all
  from compute_var_es_unfold[OF this]
  show "\<exists>es. compute_var_es r c = Inr (- interpolated_quantile_spec r (1 - c), es)"
    by blast
next
  have "quantile sample10 (1 - 95/100) = Inr (interpolated_quantile_spec sample10 (1 - 95/100))"
    by (intro quantile_spec_eq) (simp_all add: sample10_def)
  then show "interpolated_quantile_spec sample10 (1 - 95/100) = - 41/1000"
    unfolding quantile_sample10 by simp
next
  show "\<exists>es. compute_var_es sample10 (95/100) = Inr (41/1000, es)"
    using compute_var_es_sample10 by blast
qed

theorem compute_var_es_var_interpolated_witness:
  "[3/100, -2/100, 1/100] \<noteq> [] \<and> (0::real) \<le> 1/2 \<and> (1/2::real) \<le> 1
   \<and> (\<exists>es. compute_var_es [3/100, -2/100, 1/100] (1/2) = Inr (- (1/100), es))"
proof -
  have h: "[3/100, -2/100, 1/100] \<noteq> [] \<and> (0::real) \<le> 1/2 \<and> (1/2::real) \<le> 1" by simp
  have q: "interpolated_quantile_spec [3/100, -2/100, 1/100] (1 - 1/2) = 1/100"
    by (simp add: interpolated_quantile_spec_def Let_def)
  from compute_var_es_var_interpolated[of "[3/100, -2/100, 1/100]" "1/2"] h
  show ?thesis unfolding q by blast
qed

text \<open>
  C4. For a non-empty return series (and a confidence level in \<open>[0, 1]\<close>), the ES returned
  by \<^verbatim>\<open>compute_var_es\<close> is the negative of the mean of exactly the observations strictly
  below the quantile threshold: an observation equal to the threshold is not part of the
  tail. When no observation is strictly below the threshold the call still returns
  normally, with \<open>nan\<close> as the ES.
\<close>

theorem compute_var_es_es_strict_tail:
  assumes "r \<noteq> []" "0 \<le> c" "c \<le> 1"
  shows "\<exists>thr es. quantile r (1 - c) = Inr thr \<and> compute_var_es r c = Inr (- thr, es)
           \<and> thr \<notin> set (filter (\<lambda>x. x < thr) r)
           \<and> ((\<exists>x\<in>set r. x < thr) \<longrightarrow>
                 es = Fin (- (sum_list (filter (\<lambda>x. x < thr) r) /
                              real (length (filter (\<lambda>x. x < thr) r)))))
           \<and> (\<not> (\<exists>x\<in>set r. x < thr) \<longrightarrow> es = NaN)"
proof -
  have q: "quantile r (1 - c) = Inr (interpolated_quantile_spec r (1 - c))"
    using assms by (intro quantile_spec_eq) simp_all
  have e: "(filter (\<lambda>x. x < t) r = []) = (\<not> (\<exists>x\<in>set r. x < t))" for t
    by (auto simp: filter_empty_conv)
  show ?thesis
    using compute_var_es_unfold[OF q] q by (auto simp: e)
qed

theorem compute_var_es_es_strict_tail_witness:
  "compute_var_es [1/100] (95/100) = Inr (- (1/100), NaN)"
proof -
  have h: "[1/100::real] \<noteq> []" "(0::real) \<le> 95/100" "(95/100::real) \<le> 1" by simp_all
  from compute_var_es_es_strict_tail[OF h]
  show ?thesis unfolding quantile_singleton by auto
qed

text \<open>
  C6. Whenever \<^verbatim>\<open>compute_var_es\<close> returns a defined (non-\<open>nan\<close>) ES, that ES is a
  finite number and is at least the returned VaR.
\<close>

theorem compute_var_es_es_ge_var:
  assumes "compute_var_es r c = Inr (var, es)" "es \<noteq> NaN"
  shows "\<exists>e. es = Fin e \<and> var \<le> e"
proof -
  from assms(1) obtain thr where q: "quantile r (1 - c) = Inr thr"
    by (auto simp: compute_var_es_def split: sum.splits)
  define tail where "tail = filter (\<lambda>x. x < thr) r"
  from compute_var_es_unfold[OF q] assms(1)
  have v: "var = - thr" and es: "es = (if tail = [] then NaN
        else Fin (- (sum_list tail / real (length tail))))"
    by (simp_all add: tail_def)
  from es assms(2) have ne: "tail \<noteq> []" by auto
  have "\<forall>x\<in>set tail. x < thr" by (simp add: tail_def)
  from sum_list_below[OF ne this] have "sum_list tail < thr * real (length tail)" .
  moreover have "0 < real (length tail)" using ne by simp
  ultimately have "sum_list tail / real (length tail) < thr"
    by (simp add: pos_divide_less_eq)
  then show ?thesis using es ne v by simp
qed

theorem compute_var_es_es_ge_var_witness:
  "compute_var_es sample10 (95/100) = Inr (41/1000, Fin (5/100)) \<and> Fin (5/100) \<noteq> NaN
   \<and> (41/1000::real) \<le> 5/100"
proof -
  have h: "Fin (5/100) \<noteq> NaN" by simp
  from compute_var_es_es_ge_var[OF compute_var_es_sample10 h]
  show ?thesis using compute_var_es_sample10 by simp
qed

section \<open>Facts about the return calculator\<close>

lemma sort_index_sorted:
  assumes "sorted idx" "length cs = length idx"
  shows "sort_index \<lparr>index = idx, columns = cols, cells = cs\<rparr> = \<lparr>index = idx, columns = cols, cells = cs\<rparr>"
proof -
  have "sorted (map fst (zip idx cs))" using assms by simp
  then have "sort_key fst (zip idx cs) = zip idx cs" by (rule sort_key_id_if_sorted)
  then show ?thesis using assms by (simp add: sort_index_def)
qed

lemma ret_cells_nth:
  assumes "cs = map (\<lambda>d. map (\<lambda>a. lookup_cell prices d a) cols) idx"
  shows "map (map flog) (map2 (map2 fdiv) cs (take (length cs) (replicate (length cols) NaN # cs)))
       = map (\<lambda>i. map (\<lambda>a. ret_cell prices idx i a) cols) [0..<length idx]"
proof (rule nth_equalityI)
  show "length (map (map flog) (map2 (map2 fdiv) cs (take (length cs) (replicate (length cols) NaN # cs))))
      = length (map (\<lambda>i. map (\<lambda>a. ret_cell prices idx i a) cols) [0..<length idx])"
    using assms by simp
next
  fix i assume "i < length (map (map flog) (map2 (map2 fdiv) cs (take (length cs) (replicate (length cols) NaN # cs))))"
  then have i: "i < length idx" using assms by simp
  have len: "length cs = length idx" using assms by simp
  have ci: "cs ! i = map (\<lambda>a. lookup_cell prices (idx ! i) a) cols" using assms i by simp
  have si: "(replicate (length cols) NaN # cs) ! i =
      map (\<lambda>a. if i = 0 then NaN else lookup_cell prices (idx ! (i - 1)) a) cols"
  proof (cases i)
    case 0 then show ?thesis by (simp add: map_replicate_const)
  next
    case (Suc k) then show ?thesis using assms i by simp
  qed
  have "map (map flog) (map2 (map2 fdiv) cs (take (length cs) (replicate (length cols) NaN # cs))) ! i
      = map flog (map2 fdiv (cs ! i) ((replicate (length cols) NaN # cs) ! i))"
    using i len by simp
  also have "\<dots> = map (\<lambda>a. ret_cell prices idx i a) cols"
    unfolding ci si by (rule nth_equalityI) (simp_all add: ret_cell_def)
  finally show "map (map flog) (map2 (map2 fdiv) cs (take (length cs) (replicate (length cols) NaN # cs))) ! i
      = map (\<lambda>i. map (\<lambda>a. ret_cell prices idx i a) cols) [0..<length idx] ! i"
    using i by simp
qed

lemma zip_index_map:
  "zip idx (map f [0..<length idx]) = map (\<lambda>i. (idx ! i, f i)) [0..<length idx]"
  by (rule nth_equalityI) simp_all

lemma melt_columns:
  "concat (map (\<lambda>(j, a). map (\<lambda>(d, row). \<lparr>r_date = d, r_asset = a, r_return = row ! j\<rparr>)
                             (map (\<lambda>i. (idx ! i, map (\<lambda>a. g i a) cols)) ks))
               (enumerate 0 cols))
   = concat (map (\<lambda>a. map (\<lambda>i. \<lparr>r_date = idx ! i, r_asset = a, r_return = g i a\<rparr>) ks) cols)"
proof -
  have "map (\<lambda>(j, a). map (\<lambda>(d, row). \<lparr>r_date = d, r_asset = a, r_return = row ! j\<rparr>)
                             (map (\<lambda>i. (idx ! i, map (\<lambda>a. g i a) cols)) ks))
               (enumerate 0 cols)
      = map (\<lambda>(j, a). map (\<lambda>i. \<lparr>r_date = idx ! i, r_asset = a, r_return = g i a\<rparr>) ks) (enumerate 0 cols)"
    by (rule map_cong) (auto simp: in_set_enumerate_eq)
  also have "\<dots> = map (\<lambda>a. map (\<lambda>i. \<lparr>r_date = idx ! i, r_asset = a, r_return = g i a\<rparr>) ks) cols"
    by (rule nth_equalityI) (simp_all add: nth_enumerate_eq)
  finally show ?thesis by simp
qed

lemma compute_asset_returns_char:
  assumes "distinct (map (\<lambda>p. (p_date p, p_asset p)) prices)"
  shows "compute_asset_returns prices =
     Inr (concat (map (\<lambda>a. map (\<lambda>i. \<lparr>r_date = table_dates prices ! i, r_asset = a,
                                      r_return = ret_cell prices (table_dates prices) i a\<rparr>)
                               (kept_rows prices))
                      (table_assets prices)))"
proof -
  define idx where "idx = table_dates prices"
  define cols where "cols = table_assets prices"
  define cs where "cs = map (\<lambda>d. map (\<lambda>a. lookup_cell prices d a) cols) idx"
  define W where "W = \<lparr>index = idx, columns = cols, cells = cs\<rparr>"
  have p: "pivot prices = Inr W"
    using assms by (simp add: pivot_def Let_def W_def cs_def idx_def cols_def table_dates_def table_assets_def)
  have s: "sort_index W = W" unfolding W_def
    by (rule sort_index_sorted) (simp_all add: idx_def table_dates_def cs_def)
  have c: "cells (frame_log (frame_div W (shift1 W))) = map (\<lambda>i. map (\<lambda>a. ret_cell prices idx i a) cols) [0..<length idx]"
    using ret_cells_nth[OF cs_def] by (simp add: frame_log_def frame_div_def shift1_def W_def)
  have i: "index (frame_log (frame_div W (shift1 W))) = idx" "columns (frame_log (frame_div W (shift1 W))) = cols"
    by (simp_all add: frame_log_def frame_div_def shift1_def W_def)
  have f: "filter (\<lambda>(d, row). NaN \<notin> set row) (map (\<lambda>i. (idx ! i, map (\<lambda>a. ret_cell prices idx i a) cols)) [0..<length idx])
      = map (\<lambda>i. (idx ! i, map (\<lambda>a. ret_cell prices idx i a) cols)) (kept_rows prices)"
    unfolding kept_rows_def filter_map idx_def[symmetric] cols_def[symmetric]
    by (rule arg_cong[where f="map _"], rule filter_cong) (auto simp: image_iff)
  define K where "K = map (\<lambda>i. (idx ! i, map (\<lambda>a. ret_cell prices idx i a) cols)) (kept_rows prices)"
  define R where "R = frame_log (frame_div W (shift1 W))"
  have z: "zip (index R) (cells R) = map (\<lambda>i. (idx ! i, map (\<lambda>a. ret_cell prices idx i a) cols)) [0..<length idx]"
    unfolding R_def c i by (rule zip_index_map)
  have d1: "zip (index (dropna R)) (cells (dropna R)) = K"
    unfolding dropna_def Let_def z f K_def[symmetric] by (simp add: zip_map_fst_snd)
  have d2: "columns (dropna R) = cols"
    unfolding dropna_def Let_def using i(2) by (simp add: R_def)
  have "melt (dropna R) =
     concat (map (\<lambda>a. map (\<lambda>i. \<lparr>r_date = idx ! i, r_asset = a, r_return = ret_cell prices idx i a\<rparr>) (kept_rows prices)) cols)"
    unfolding melt_def d1 d2 unfolding K_def by (rule melt_columns)
  then show ?thesis unfolding compute_asset_returns_def p by (simp add: s idx_def cols_def R_def)
qed

lemma compute_asset_returns_dup:
  "\<not> distinct (map (\<lambda>p. (p_date p, p_asset p)) prices) \<Longrightarrow> compute_asset_returns prices = Inl ValueError"
  by (simp add: compute_asset_returns_def pivot_def)

lemma flog_fdiv_NaN: "flog (fdiv x y) \<noteq> NaN \<Longrightarrow> x \<noteq> NaN \<and> y \<noteq> NaN"
  by (cases x; cases y) auto

lemma lookup_cell_has_price: "lookup_cell prices d a \<noteq> NaN \<Longrightarrow> has_price prices d a"
proof -
  assume a: "lookup_cell prices d a \<noteq> NaN"
  then obtain p ps where f: "filter (\<lambda>p. p_date p = d \<and> p_asset p = a) prices = p # ps"
    by (auto simp: lookup_cell_def split: list.splits)
  then have "p \<in> set (filter (\<lambda>p. p_date p = d \<and> p_asset p = a) prices)" by simp
  moreover have "adj_close p \<noteq> NaN" using a f by (simp add: lookup_cell_def)
  ultimately show ?thesis by (auto simp: has_price_def)
qed

lemma ret_cell_has_price:
  assumes "ret_cell prices idx i a \<noteq> NaN"
  shows "\<exists>k. i = Suc k \<and> has_price prices (idx ! Suc k) a \<and> has_price prices (idx ! k) a"
proof (cases i)
  case 0
  then show ?thesis using assms flog_fdiv_NaN[of "lookup_cell prices (idx ! 0) a" NaN]
    by (simp add: ret_cell_def)
next
  case (Suc k)
  then show ?thesis using assms
      flog_fdiv_NaN[of "lookup_cell prices (idx ! Suc k) a" "lookup_cell prices (idx ! k) a"]
    by (simp add: ret_cell_def lookup_cell_has_price)
qed

lemma compute_asset_returns_set:
  assumes "compute_asset_returns prices = Inr out"
  shows "set out = {\<lparr>r_date = table_dates prices ! i, r_asset = a,
                     r_return = ret_cell prices (table_dates prices) i a\<rparr> | a i.
                   a \<in> set (table_assets prices) \<and> i \<in> set (kept_rows prices)}"
proof -
  have "distinct (map (\<lambda>p. (p_date p, p_asset p)) prices)"
    using assms compute_asset_returns_dup[of prices] by auto
  from compute_asset_returns_char[OF this] assms show ?thesis by auto
qed

lemma kept_rows_iff:
  "i \<in> set (kept_rows prices) \<longleftrightarrow>
     i < length (table_dates prices) \<and>
     (\<forall>a\<in>set (table_assets prices). ret_cell prices (table_dates prices) i a \<noteq> NaN)"
  by (auto simp: kept_rows_def)

lemma compute_two: "compute_asset_returns prices_two_assets = Inr
   [\<lparr>r_date = ''2020-01-03'', r_asset = ''AAPL'', r_return = Fin (ln (110/100))\<rparr>,
    \<lparr>r_date = ''2020-01-03'', r_asset = ''SPX'', r_return = Fin (ln (55/50))\<rparr>]"
  by (simp add: compute_asset_returns_def prices_two_assets_def pivot_def sort_index_def shift1_def frame_div_def frame_log_def dropna_def melt_def lookup_cell_def Let_def)

lemma compute_gap: "compute_asset_returns prices_gap = Inr []"
  by (simp add: compute_asset_returns_def prices_gap_def pivot_def sort_index_def shift1_def frame_div_def frame_log_def dropna_def melt_def lookup_cell_def Let_def)

lemma positive_pricesD:
  "positive_prices prices \<Longrightarrow> p \<in> set prices \<Longrightarrow> adj_close p = Fin (price_of p) \<and> 0 < price_of p"
  by (auto simp: positive_prices_def price_of_def split: flt.splits)

lemma unique_keys_eq:
  assumes "unique_keys prices" "p \<in> set prices" "q \<in> set prices"
    "p_date p = p_date q" "p_asset p = p_asset q"
  shows "p = q"
proof -
  have "inj_on (\<lambda>p. (p_date p, p_asset p)) (set prices)"
    using assms(1) by (simp add: unique_keys_def distinct_map)
  then show ?thesis using assms(2-5) by (auto dest: inj_onD)
qed

lemma lookup_cell_unique:
  assumes "unique_keys prices" "p \<in> set prices"
  shows "lookup_cell prices (p_date p) (p_asset p) = adj_close p"
proof -
  have "p \<in> set (filter (\<lambda>q. p_date q = p_date p \<and> p_asset q = p_asset p) prices)"
    using assms by simp
  then obtain q qs where f: "filter (\<lambda>q. p_date q = p_date p \<and> p_asset q = p_asset p) prices = q # qs"
    by (cases "filter (\<lambda>q. p_date q = p_date p \<and> p_asset q = p_asset p) prices") auto
  then have "q \<in> set (filter (\<lambda>q. p_date q = p_date p \<and> p_asset q = p_asset p) prices)" by simp
  then have "q \<in> set prices" "p_date q = p_date p" "p_asset q = p_asset p" by auto
  then have "q = p" using unique_keys_eq[OF assms(1) _ assms(2)] by blast
  then show ?thesis using f by (simp add: lookup_cell_def)
qed

lemma obs_dates:
  assumes u: "unique_keys prices" and c: "complete_table prices" and a: "a \<in> set (table_assets prices)"
  shows "map p_date (sort_key p_date (observations_of prices a)) = table_dates prices"
proof (rule sorted_distinct_set_unique)
  show "sorted (map p_date (sort_key p_date (observations_of prices a)))" by (rule sorted_sort_key)
  have "inj_on (\<lambda>p. (p_date p, p_asset p)) (set prices)" "distinct prices"
    using u by (simp_all add: unique_keys_def distinct_map)
  then have "inj_on p_date (set (observations_of prices a))"
    unfolding observations_of_def inj_on_def by auto
  moreover have "distinct (observations_of prices a)" using \<open>distinct prices\<close> by (simp add: observations_of_def)
  ultimately show "distinct (map p_date (sort_key p_date (observations_of prices a)))"
    by (simp add: distinct_map)
  show "sorted (table_dates prices)" "distinct (table_dates prices)" by (simp_all add: table_dates_def)
  show "set (map p_date (sort_key p_date (observations_of prices a))) = set (table_dates prices)"
  proof
    show "set (map p_date (sort_key p_date (observations_of prices a))) \<subseteq> set (table_dates prices)"
      by (auto simp: table_dates_def observations_of_def)
    show "set (table_dates prices) \<subseteq> set (map p_date (sort_key p_date (observations_of prices a)))"
    proof
      fix d assume "d \<in> set (table_dates prices)"
      then obtain p where "p \<in> set prices" "p_date p = d" "p_asset p = a"
        using c a unfolding complete_table_def by blast
      then have "p \<in> set (observations_of prices a)" by (simp add: observations_of_def)
      then show "d \<in> set (map p_date (sort_key p_date (observations_of prices a)))"
        using \<open>p_date p = d\<close> by (auto simp: image_iff)
    qed
  qed
qed

lemma obs_nth:
  assumes u: "unique_keys prices" and c: "complete_table prices" and a: "a \<in> set (table_assets prices)"
    and i: "i < length (table_dates prices)"
  shows "lookup_cell prices (table_dates prices ! i) a = adj_close (sort_key p_date (observations_of prices a) ! i)"
    and "sort_key p_date (observations_of prices a) ! i \<in> set prices"
proof -
  define obs where "obs = sort_key p_date (observations_of prices a)"
  have d: "map p_date obs = table_dates prices" unfolding obs_def by (rule obs_dates[OF u c a])
  then have l: "length obs = length (table_dates prices)" by (metis length_map)
  then have m: "obs ! i \<in> set obs" using i by simp
  then have s: "obs ! i \<in> set prices" and pa: "p_asset (obs ! i) = a"
    by (auto simp: obs_def observations_of_def)
  have pd: "p_date (obs ! i) = table_dates prices ! i" using d i l by (metis nth_map)
  show "lookup_cell prices (table_dates prices ! i) a = adj_close (obs ! i)"
    using lookup_cell_unique[OF u s] by (simp add: pa pd)
  show "obs ! i \<in> set prices" by (rule s)
qed

lemma ret_cell_complete:
  assumes u: "unique_keys prices" and c: "complete_table prices" and pos: "positive_prices prices"
    and a: "a \<in> set (table_assets prices)" and i: "Suc k < length (table_dates prices)"
  shows "ret_cell prices (table_dates prices) (Suc k) a =
     Fin (ln (price_of (sort_key p_date (observations_of prices a) ! Suc k) /
              price_of (sort_key p_date (observations_of prices a) ! k)))"
proof -
  define obs where "obs = sort_key p_date (observations_of prices a)"
  have k: "k < length (table_dates prices)" using i by simp
  note p1 = positive_pricesD[OF pos obs_nth(2)[OF u c a i]]
  note p0 = positive_pricesD[OF pos obs_nth(2)[OF u c a k]]
  show ?thesis
    unfolding ret_cell_def using p1 p0 by (simp add: obs_nth(1)[OF u c a i] obs_nth(1)[OF u c a k])
qed

lemma ret_cell_first: "ret_cell prices idx 0 a = NaN"
  by (cases "lookup_cell prices (idx ! 0) a") (simp_all add: ret_cell_def)

lemma kept_rows_complete:
  assumes u: "unique_keys prices" and c: "complete_table prices" and pos: "positive_prices prices"
    and ne: "table_assets prices \<noteq> []"
  shows "kept_rows prices = [Suc 0..<length (table_dates prices)]"
proof (cases "length (table_dates prices)")
  case 0 then show ?thesis by (simp add: kept_rows_def)
next
  case (Suc m)
  obtain a where a: "a \<in> set (table_assets prices)" using ne by (cases "table_assets prices") auto
  have z: "\<not> (\<forall>a\<in>set (table_assets prices). ret_cell prices (table_dates prices) 0 a \<noteq> NaN)"
    using a ret_cell_first by blast
  have "filter (\<lambda>i. \<forall>a\<in>set (table_assets prices). ret_cell prices (table_dates prices) i a \<noteq> NaN)
          [Suc 0..<length (table_dates prices)] = [Suc 0..<length (table_dates prices)]"
  proof (rule filter_True, rule ballI, rule ballI)
    fix i b assume "i \<in> set [Suc 0..<length (table_dates prices)]" and b: "b \<in> set (table_assets prices)"
    then have "Suc 0 \<le> i \<and> i < length (table_dates prices)" by simp
    then obtain k where "i = Suc k" "Suc k < length (table_dates prices)"
      by (cases i) simp_all
    then show "ret_cell prices (table_dates prices) i b \<noteq> NaN"
      using ret_cell_complete[OF u c pos b] by simp
  qed
  then show ?thesis unfolding kept_rows_def using z Suc by (simp add: upt_conv_Cons del: upt_Suc)
qed

lemma filter_concat_asset:
  assumes "distinct cols"
  shows "filter (\<lambda>x. r_asset x = a)
           (concat (map (\<lambda>b. map (\<lambda>i. \<lparr>r_date = f i, r_asset = b, r_return = g i b\<rparr>) ks) cols))
       = (if a \<in> set cols then map (\<lambda>i. \<lparr>r_date = f i, r_asset = a, r_return = g i a\<rparr>) ks else [])"
  using assms
proof (induction cols)
  case Nil then show ?case by simp
next
  case (Cons b cols)
  have h: "filter (\<lambda>x. r_asset x = a) (map (\<lambda>i. \<lparr>r_date = f i, r_asset = b, r_return = g i b\<rparr>) ks)
        = (if a = b then map (\<lambda>i. \<lparr>r_date = f i, r_asset = a, r_return = g i a\<rparr>) ks else [])"
    by (simp add: filter_map comp_def)
  show ?case using Cons by (auto simp: h)
qed

lemma spec_as_index:
  assumes "length obs = n"
  shows "map (\<lambda>(prev, cur). F prev cur) (zip obs (tl obs)) = map (\<lambda>i. F (obs ! (i - 1)) (obs ! i)) [Suc 0..<n]"
proof (rule nth_equalityI)
  show "length (map (\<lambda>(prev, cur). F prev cur) (zip obs (tl obs))) = length (map (\<lambda>i. F (obs ! (i - 1)) (obs ! i)) [Suc 0..<n])"
    using assms by simp
next
  fix i assume "i < length (map (\<lambda>(prev, cur). F prev cur) (zip obs (tl obs)))"
  then have i: "Suc i < n" using assms by simp
  then show "map (\<lambda>(prev, cur). F prev cur) (zip obs (tl obs)) ! i = map (\<lambda>i. F (obs ! (i - 1)) (obs ! i)) [Suc 0..<n] ! i"
    using assms nth_upt[of "Suc 0" i n] by (simp add: nth_tl)
qed

lemma two_in_list:
  assumes "x \<in> set xs" "y \<in> set xs" "x \<noteq> y"
  shows "2 \<le> length xs"
proof -
  have "{x, y} \<subseteq> set xs" using assms by simp
  then have "card {x, y} \<le> card (set xs)" by (intro card_mono) simp_all
  moreover have "card {x, y} = 2" using assms(3) by simp
  moreover have "card (set xs) \<le> length xs" by (rule card_length)
  ultimately show ?thesis by simp
qed

lemma has_price_obs:
  "has_price prices d a \<Longrightarrow> \<exists>p\<in>set (observations_of prices a). p_date p = d"
  by (auto simp: has_price_def observations_of_def)

lemma few_observations_no_returns:
  assumes c: "compute_asset_returns prices = Inr out"
    and l: "length (observations_of prices a) < 2"
  shows "returns_of_asset out a = []"
proof (rule ccontr)
  assume "returns_of_asset out a \<noteq> []"
  then obtain x where x: "x \<in> set out" "r_asset x = a"
    by (auto simp: returns_of_asset_def filter_empty_conv)
  then obtain i where i: "i \<in> set (kept_rows prices)" and a: "a \<in> set (table_assets prices)"
    unfolding compute_asset_returns_set[OF c] by auto
  then have r: "ret_cell prices (table_dates prices) i a \<noteq> NaN" and n: "i < length (table_dates prices)"
    by (auto simp: kept_rows_iff)
  from ret_cell_has_price[OF r] obtain k where k: "i = Suc k"
    and h1: "has_price prices (table_dates prices ! Suc k) a"
    and h0: "has_price prices (table_dates prices ! k) a" by blast
  from has_price_obs[OF h1] obtain p where p: "p \<in> set (observations_of prices a)"
    "p_date p = table_dates prices ! Suc k" by blast
  from has_price_obs[OF h0] obtain q where q: "q \<in> set (observations_of prices a)"
    "p_date q = table_dates prices ! k" by blast
  have "distinct (table_dates prices)" by (simp add: table_dates_def)
  then have "table_dates prices ! Suc k \<noteq> table_dates prices ! k"
    using n k by (simp add: nth_eq_iff_index_eq)
  then have "p \<noteq> q" using p q by auto
  from two_in_list[OF p(1) q(1) this] l show False by simp
qed

lemma complete_returns:
  assumes u: "unique_keys prices" and c: "complete_table prices" and pos: "positive_prices prices"
    and o: "compute_asset_returns prices = Inr out"
  shows "returns_of_asset out a = per_asset_returns_spec prices a
       \<and> length (returns_of_asset out a) = length (observations_of prices a) - 1"
proof -
  define idx where "idx = table_dates prices"
  define obs where "obs = sort_key p_date (observations_of prices a)"
  have out: "out = concat (map (\<lambda>b. map (\<lambda>i. \<lparr>r_date = idx ! i, r_asset = b,
                                      r_return = ret_cell prices idx i b\<rparr>)
                               (kept_rows prices)) (table_assets prices))"
    using compute_asset_returns_char[of prices] u o by (simp add: unique_keys_def idx_def)
  have dc: "distinct (table_assets prices)" by (simp add: table_assets_def)
  have R: "returns_of_asset out a = (if a \<in> set (table_assets prices)
      then map (\<lambda>i. \<lparr>r_date = idx ! i, r_asset = a, r_return = ret_cell prices idx i a\<rparr>) (kept_rows prices)
      else [])"
    unfolding returns_of_asset_def out by (rule filter_concat_asset[OF dc])
  show ?thesis
  proof (cases "a \<in> set (table_assets prices)")
    case False
    then have "filter (\<lambda>p. p_asset p = a) prices = []"
      by (auto simp: table_assets_def filter_empty_conv)
    then show ?thesis using False R by (simp add: per_asset_returns_spec_def observations_of_def)
  next
    case True
    then have ne: "table_assets prices \<noteq> []" by auto
    have k: "kept_rows prices = [Suc 0..<length idx]"
      unfolding idx_def by (rule kept_rows_complete[OF u c pos ne])
    have d: "map p_date obs = idx" unfolding obs_def idx_def by (rule obs_dates[OF u c True])
    then have l: "length obs = length idx" by (metis length_map)
    have S: "per_asset_returns_spec prices a =
        map (\<lambda>i. \<lparr>r_date = p_date (obs ! i), r_asset = a,
                   r_return = Fin (ln (price_of (obs ! i) / price_of (obs ! (i - 1))))\<rparr>) [Suc 0..<length idx]"
      unfolding per_asset_returns_spec_def Let_def obs_def[symmetric]
      by (rule spec_as_index[OF l])
    have E: "map (\<lambda>i. \<lparr>r_date = idx ! i, r_asset = a, r_return = ret_cell prices idx i a\<rparr>) [Suc 0..<length idx]
        = map (\<lambda>i. \<lparr>r_date = p_date (obs ! i), r_asset = a,
                   r_return = Fin (ln (price_of (obs ! i) / price_of (obs ! (i - 1))))\<rparr>) [Suc 0..<length idx]"
    proof (rule map_cong[OF refl])
      fix i assume "i \<in> set [Suc 0..<length idx]"
      then have "Suc 0 \<le> i \<and> i < length idx" by simp
      then obtain j where j: "i = Suc j" "Suc j < length idx" by (cases i) simp_all
      have "p_date (obs ! i) = idx ! i" using d l j by (metis nth_map)
      moreover have "ret_cell prices idx i a = Fin (ln (price_of (obs ! i) / price_of (obs ! (i - 1))))"
        using ret_cell_complete[OF u c pos True, of j] j by (simp add: idx_def obs_def)
      ultimately show "\<lparr>r_date = idx ! i, r_asset = a, r_return = ret_cell prices idx i a\<rparr>
         = \<lparr>r_date = p_date (obs ! i), r_asset = a,
                   r_return = Fin (ln (price_of (obs ! i) / price_of (obs ! (i - 1))))\<rparr>" by simp
    qed
    have "length (observations_of prices a) = length idx" using l by (simp add: obs_def)
    then show ?thesis using True R k S E by simp
  qed
qed

lemma spec_gap: "per_asset_returns_spec prices_gap ''AAPL'' =
    [\<lparr>r_date = ''2020-01-03'', r_asset = ''AAPL'', r_return = Fin (ln (110/100))\<rparr>]"
  by (simp add: per_asset_returns_spec_def prices_gap_def observations_of_def price_of_def)

section \<open>Claims about the return calculator\<close>

text \<open>
  C10. The output of \<^verbatim>\<open>compute_asset_returns\<close> is rectangular over assets: any two assets
  that appear in it have returns on the same set of dates. A date appears in the output
  only if it has an immediately preceding date in the sorted date list of the table and
  every asset column of the pivoted table has a non-missing price on both of them; hence
  one asset missing a date removes the returns of that date for all assets.
\<close>

theorem compute_asset_returns_rectangular:
  assumes "compute_asset_returns prices = Inr out"
  shows "(\<forall>x\<in>set out. \<forall>y\<in>set out.
            r_date ` {z \<in> set out. r_asset z = r_asset x} =
            r_date ` {z \<in> set out. r_asset z = r_asset y})
       \<and> (\<forall>x\<in>set out. \<forall>a\<in>set (table_assets prices).
            \<exists>k. Suc k < length (table_dates prices)
               \<and> r_date x = table_dates prices ! Suc k
               \<and> has_price prices (table_dates prices ! Suc k) a
               \<and> has_price prices (table_dates prices ! k) a)"
proof -
  note S = compute_asset_returns_set[OF assms]
  have dates: "r_date ` {z \<in> set out. r_asset z = a} = (\<lambda>i. table_dates prices ! i) ` set (kept_rows prices)"
    if "a \<in> set (table_assets prices)" for a
    using that unfolding S by (auto simp: image_iff) force
  have asset: "r_asset x \<in> set (table_assets prices)" if "x \<in> set out" for x
    using that unfolding S by auto
  have A: "\<forall>x\<in>set out. \<forall>y\<in>set out.
            r_date ` {z \<in> set out. r_asset z = r_asset x} =
            r_date ` {z \<in> set out. r_asset z = r_asset y}"
    using dates asset by simp
  have B: "\<exists>k. Suc k < length (table_dates prices)
               \<and> r_date x = table_dates prices ! Suc k
               \<and> has_price prices (table_dates prices ! Suc k) a
               \<and> has_price prices (table_dates prices ! k) a"
    if x: "x \<in> set out" and a: "a \<in> set (table_assets prices)" for x a
  proof -
    from x obtain i where i: "i \<in> set (kept_rows prices)" and d: "r_date x = table_dates prices ! i"
      unfolding S by auto
    from i a have "ret_cell prices (table_dates prices) i a \<noteq> NaN" and l: "i < length (table_dates prices)"
      by (auto simp: kept_rows_iff)
    from ret_cell_has_price[OF this(1)] d l show ?thesis by auto
  qed
  from A B show ?thesis by blast
qed

theorem compute_asset_returns_rectangular_witness:
  "compute_asset_returns prices_two_assets = Inr
     [\<lparr>r_date = ''2020-01-03'', r_asset = ''AAPL'', r_return = Fin (ln (110/100))\<rparr>,
      \<lparr>r_date = ''2020-01-03'', r_asset = ''SPX'', r_return = Fin (ln (55/50))\<rparr>]
   \<and> has_price prices_two_assets ''2020-01-03'' ''AAPL''
   \<and> has_price prices_two_assets ''2020-01-02'' ''AAPL''
   \<and> has_price prices_two_assets ''2020-01-03'' ''SPX''
   \<and> has_price prices_two_assets ''2020-01-02'' ''SPX''"
proof -
  have t: "table_assets prices_two_assets = [''AAPL'', ''SPX'']"
    "table_dates prices_two_assets = [''2020-01-02'', ''2020-01-03'']"
    by (simp_all add: table_assets_def table_dates_def prices_two_assets_def)
  have "\<forall>a\<in>{''AAPL'', ''SPX''}.
         has_price prices_two_assets ''2020-01-03'' a \<and> has_price prices_two_assets ''2020-01-02'' a"
    using compute_asset_returns_rectangular[OF compute_two] unfolding t
    by (auto simp: less_Suc_eq)
  then show ?thesis using compute_two by simp
qed

text \<open>
  C1, as amended. On a price table with unique (date, asset) keys
  \<^verbatim>\<open>compute_asset_returns\<close> returns normally, and an asset with fewer than two
  observations has no return in the output. If moreover every asset has a price on every
  date of the table and prices are positive finite numbers, then the returns of each asset
  are exactly those obtained from that asset alone: its observations sorted by date, one
  return \<open>ln (price[t] / price[t-1])\<close> per consecutive pair, hence one fewer return than
  observations.
\<close>

theorem compute_asset_returns_complete_tables:
  assumes "unique_keys prices"
  shows "\<exists>out. compute_asset_returns prices = Inr out
     \<and> (\<forall>a. length (observations_of prices a) < 2 \<longrightarrow> returns_of_asset out a = [])
     \<and> (complete_table prices \<and> positive_prices prices \<longrightarrow>
          (\<forall>a. returns_of_asset out a = per_asset_returns_spec prices a
             \<and> length (returns_of_asset out a) = length (observations_of prices a) - 1))"
proof -
  obtain out where o: "compute_asset_returns prices = Inr out"
    using compute_asset_returns_char[of prices] assms by (simp add: unique_keys_def)
  show ?thesis
    using o few_observations_no_returns[OF o] complete_returns[OF assms _ _ o] by blast
qed

theorem compute_asset_returns_complete_tables_witness:
  "unique_keys prices_two_assets \<and> complete_table prices_two_assets \<and> positive_prices prices_two_assets
   \<and> compute_asset_returns prices_two_assets = Inr
     [\<lparr>r_date = ''2020-01-03'', r_asset = ''AAPL'', r_return = Fin (ln (110/100))\<rparr>,
      \<lparr>r_date = ''2020-01-03'', r_asset = ''SPX'', r_return = Fin (ln (55/50))\<rparr>]
   \<and> per_asset_returns_spec prices_two_assets ''SPX'' =
       [\<lparr>r_date = ''2020-01-03'', r_asset = ''SPX'', r_return = Fin (ln (55/50))\<rparr>]
   \<and> length (observations_of prices_two_assets ''SPX'') = 2"
proof -
  have u: "unique_keys prices_two_assets" by (simp add: unique_keys_def prices_two_assets_def)
  have c: "complete_table prices_two_assets"
    by (simp add: complete_table_def table_dates_def table_assets_def prices_two_assets_def)
  have p: "positive_prices prices_two_assets"
    by (simp add: positive_prices_def prices_two_assets_def)
  have r: "returns_of_asset [\<lparr>r_date = ''2020-01-03'', r_asset = ''AAPL'', r_return = Fin (ln (110/100))\<rparr>,
      \<lparr>r_date = ''2020-01-03'', r_asset = ''SPX'', r_return = Fin (ln (55/50))\<rparr>] ''SPX''
      = [\<lparr>r_date = ''2020-01-03'', r_asset = ''SPX'', r_return = Fin (ln (55/50))\<rparr>]"
    by (simp add: returns_of_asset_def)
  have l: "length (observations_of prices_two_assets ''SPX'') = 2"
    by (simp add: observations_of_def prices_two_assets_def)
  from compute_asset_returns_complete_tables[OF u] c p
  have "\<forall>a. returns_of_asset [\<lparr>r_date = ''2020-01-03'', r_asset = ''AAPL'', r_return = Fin (ln (110/100))\<rparr>,
      \<lparr>r_date = ''2020-01-03'', r_asset = ''SPX'', r_return = Fin (ln (55/50))\<rparr>] a
      = per_asset_returns_spec prices_two_assets a"
    unfolding compute_two by blast
  then have "per_asset_returns_spec prices_two_assets ''SPX'' =
       [\<lparr>r_date = ''2020-01-03'', r_asset = ''SPX'', r_return = Fin (ln (55/50))\<rparr>]"
    using r by metis
  then show ?thesis using u c p l compute_two by simp
qed

text \<open>
  C1 as stated fails when the assets do not share their dates: in \<^const>\<open>prices_gap\<close>
  the asset \<^verbatim>\<open>AAPL\<close> has two observations, so on its own it yields one return, but
  \<^verbatim>\<open>SPX\<close> has no price on the first date and the output holds no return at all.
\<close>

theorem compute_asset_returns_not_independent:
  "compute_asset_returns prices_gap = Inr []
   \<and> length (observations_of prices_gap ''AAPL'') = 2
   \<and> per_asset_returns_spec prices_gap ''AAPL'' =
        [\<lparr>r_date = ''2020-01-03'', r_asset = ''AAPL'', r_return = Fin (ln (110/100))\<rparr>]
   \<and> returns_of_asset [] ''AAPL'' \<noteq> per_asset_returns_spec prices_gap ''AAPL''"
  using compute_gap spec_gap by (simp add: returns_of_asset_def) (simp add: observations_of_def prices_gap_def)

section \<open>Facts about the portfolio aggregator\<close>

lemmas bpr_defs = build_portfolio_returns_def merge_on_asset_def group_rows_def nansum_def weighted_return_def Let_def


lemma build_long_short: "build_portfolio_returns returns_long_short positions_long_short =
    Inr [\<lparr>pr_date = ''2020-01-03'', pr_fund_id = 2, portfolio_return = NInf\<rparr>]"
  by (simp add: bpr_defs returns_long_short_def positions_long_short_def)

lemma build_unheld: "build_portfolio_returns returns_unheld positions_unheld =
    Inr [\<lparr>pr_date = ''2020-01-03'', pr_fund_id = 3, portfolio_return = NaN\<rparr>]"
  by (simp add: bpr_defs returns_unheld_def positions_unheld_def)

lemma nansum_fin: "\<forall>x\<in>set xs. is_fin x \<Longrightarrow> nansum xs = Fin (\<Sum>x\<leftarrow>xs. the_fin x)"
proof (induction xs)
  case Nil then show ?case by (simp add: nansum_def)
next
  case (Cons x xs)
  then obtain v where "x = Fin v" by (cases x) (auto simp: is_fin_def)
  then show ?case using Cons by (simp add: nansum_def the_fin_def)
qed

lemma merged_finite:
  assumes "finite_returns returns" "finite_quantities positions"
    "m \<in> set (merge_on_asset returns positions)"
  shows "is_fin (m_return m) \<and> is_fin (m_quantity m)"
  using assms by (auto simp: merge_on_asset_def finite_returns_def finite_quantities_def)

lemma weighted_return_fin:
  "is_fin (m_return m) \<Longrightarrow> is_fin (m_quantity m) \<Longrightarrow>
   weighted_return m = Fin (the_fin (m_return m) * the_fin (m_quantity m))"
  by (cases "m_return m"; cases "m_quantity m") (simp_all add: weighted_return_def is_fin_def the_fin_def)

lemma group_sums:
  assumes "finite_returns returns" "finite_quantities positions"
  shows "nansum (map weighted_return (group_rows (merge_on_asset returns positions) d f))
       = Fin (weighted_sum (group_rows (merge_on_asset returns positions) d f))"
    and "nansum (map m_quantity (group_rows (merge_on_asset returns positions) d f))
       = Fin (quantity_sum (group_rows (merge_on_asset returns positions) d f))"
proof -
  define df where "df = group_rows (merge_on_asset returns positions) d f"
  have fin: "\<forall>m\<in>set df. is_fin (m_return m) \<and> is_fin (m_quantity m)"
    using merged_finite[OF assms] by (auto simp: df_def group_rows_def)
  have w: "map weighted_return df = map (\<lambda>m. Fin (the_fin (m_return m) * the_fin (m_quantity m))) df"
    using fin by (intro map_cong refl weighted_return_fin) auto
  have "nansum (map weighted_return df) = Fin (weighted_sum df)"
    unfolding w weighted_sum_def
    by (subst nansum_fin) (simp_all add: is_fin_def the_fin_def comp_def)
  moreover have "nansum (map m_quantity df) = Fin (quantity_sum df)"
    unfolding quantity_sum_def using fin by (subst nansum_fin) (simp_all add: comp_def)
  ultimately show "nansum (map weighted_return (group_rows (merge_on_asset returns positions) d f))
       = Fin (weighted_sum (group_rows (merge_on_asset returns positions) d f))"
    and "nansum (map m_quantity (group_rows (merge_on_asset returns positions) d f))
       = Fin (quantity_sum (group_rows (merge_on_asset returns positions) d f))"
    by (simp_all add: df_def)
qed

lemma build_portfolio_returns_finite:
  assumes "finite_returns returns" "finite_quantities positions"
    and "merge_on_asset returns positions \<noteq> []"
  shows "build_portfolio_returns returns positions =
     Inr (map (\<lambda>(d, f). \<lparr>pr_date = d, pr_fund_id = f,
                 portfolio_return = fdiv (Fin (weighted_sum (group_rows (merge_on_asset returns positions) d f)))
                                         (Fin (quantity_sum (group_rows (merge_on_asset returns positions) d f)))\<rparr>)
              (sort (remdups (map (\<lambda>m. (m_date m, m_fund_id m)) (merge_on_asset returns positions)))))"
  using assms(3) unfolding build_portfolio_returns_def Let_def
  by (simp add: group_sums[OF assms(1,2)])



lemma quantities_zero_weighted_sum:
  "\<forall>m\<in>set df. m_quantity m = Fin 0 \<Longrightarrow> weighted_sum df = 0 \<and> quantity_sum df = 0"
  by (induction df) (simp_all add: weighted_sum_def quantity_sum_def the_fin_def)

section \<open>Claims about the portfolio aggregator\<close>



text \<open>
  C8, as amended. For a (date, fund) group of finite returns and quantities whose
  quantities sum to zero, \<^verbatim>\<open>build_portfolio_returns\<close> returns normally and the portfolio
  return of the group is \<open>nan\<close> when the weighted sum \<open>\<Sum> return\<^sub>i * quantity\<^sub>i\<close> is zero
  as well, in particular when every quantity of the group is zero, and \<open>inf\<close> or
  \<open>-inf\<close>, by the sign of the weighted sum, otherwise.
\<close>

theorem build_portfolio_returns_zero_quantity:
  assumes "finite_returns returns" "finite_quantities positions"
    and "(d, f) \<in> set (map (\<lambda>m. (m_date m, m_fund_id m)) (merge_on_asset returns positions))"
    and "quantity_sum (group_rows (merge_on_asset returns positions) d f) = 0"
  shows "\<exists>out. build_portfolio_returns returns positions = Inr out
     \<and> \<lparr>pr_date = d, pr_fund_id = f,
         portfolio_return =
           (if weighted_sum (group_rows (merge_on_asset returns positions) d f) = 0 then NaN
            else if 0 < weighted_sum (group_rows (merge_on_asset returns positions) d f) then PInf
            else NInf)\<rparr> \<in> set out
     \<and> ((\<forall>m\<in>set (group_rows (merge_on_asset returns positions) d f). m_quantity m = Fin 0) \<longrightarrow>
          \<lparr>pr_date = d, pr_fund_id = f, portfolio_return = NaN\<rparr> \<in> set out)"
proof -
  define merged where "merged = merge_on_asset returns positions"
  define keys where "keys = sort (remdups (map (\<lambda>m. (m_date m, m_fund_id m)) merged))"
  define out where "out = map (\<lambda>(d, f). \<lparr>pr_date = d, pr_fund_id = f,
                 portfolio_return = fdiv (Fin (weighted_sum (group_rows merged d f)))
                                         (Fin (quantity_sum (group_rows merged d f)))\<rparr>) keys"
  have ne: "merged \<noteq> []" using assms(3) by (auto simp: merged_def)
  have b: "build_portfolio_returns returns positions = Inr out"
    using build_portfolio_returns_finite[OF assms(1,2)] ne by (simp add: merged_def keys_def out_def)
  have k: "(d, f) \<in> set keys" using assms(3) by (simp add: keys_def merged_def)
  have val: "fdiv (Fin (weighted_sum (group_rows merged d f))) (Fin (quantity_sum (group_rows merged d f)))
      = (if weighted_sum (group_rows merged d f) = 0 then NaN
            else if 0 < weighted_sum (group_rows merged d f) then PInf
            else NInf)"
    using assms(4) by (simp add: merged_def)
  have "\<lparr>pr_date = d, pr_fund_id = f,
                 portfolio_return = fdiv (Fin (weighted_sum (group_rows merged d f)))
                                         (Fin (quantity_sum (group_rows merged d f)))\<rparr> \<in> set out"
    unfolding out_def using k by (auto simp: image_iff intro!: bexI[of _ "(d, f)"])
  then have r: "\<lparr>pr_date = d, pr_fund_id = f,
         portfolio_return =
           (if weighted_sum (group_rows merged d f) = 0 then NaN
            else if 0 < weighted_sum (group_rows merged d f) then PInf
            else NInf)\<rparr> \<in> set out"
    unfolding val .
  have "\<lparr>pr_date = d, pr_fund_id = f, portfolio_return = NaN\<rparr> \<in> set out"
    if "\<forall>m\<in>set (group_rows merged d f). m_quantity m = Fin 0"
    using r quantities_zero_weighted_sum[OF that] by simp
  then show ?thesis using b r unfolding merged_def by blast
qed

theorem build_portfolio_returns_zero_quantity_witness:
  "finite_returns returns_unheld \<and> finite_quantities positions_unheld
   \<and> quantity_sum (group_rows (merge_on_asset returns_unheld positions_unheld) ''2020-01-03'' 3) = 0
   \<and> build_portfolio_returns returns_unheld positions_unheld =
       Inr [\<lparr>pr_date = ''2020-01-03'', pr_fund_id = 3, portfolio_return = NaN\<rparr>]"
proof -
  have f: "finite_returns returns_unheld" "finite_quantities positions_unheld"
    by (simp_all add: finite_returns_def finite_quantities_def returns_unheld_def positions_unheld_def is_fin_def)
  have k: "(''2020-01-03'', 3) \<in> set (map (\<lambda>m. (m_date m, m_fund_id m)) (merge_on_asset returns_unheld positions_unheld))"
    by (simp add: merge_on_asset_def returns_unheld_def positions_unheld_def)
  have q: "quantity_sum (group_rows (merge_on_asset returns_unheld positions_unheld) ''2020-01-03'' 3) = 0"
    by (simp add: quantity_sum_def group_rows_def merge_on_asset_def returns_unheld_def positions_unheld_def the_fin_def)
  from build_portfolio_returns_zero_quantity[OF f k q]
  have "\<exists>out. build_portfolio_returns returns_unheld positions_unheld = Inr out" by blast
  then show ?thesis using f q build_unheld by simp
qed

text \<open>
  C8 as stated fails for offsetting long and short positions: quantities 100 and -100
  sum to zero, the weighted sum is -1, and the portfolio return is \<open>-inf\<close>, not \<open>nan\<close>.
\<close>

theorem build_portfolio_returns_zero_quantity_inf:
  "build_portfolio_returns returns_long_short positions_long_short =
     Inr [\<lparr>pr_date = ''2020-01-03'', pr_fund_id = 2, portfolio_return = NInf\<rparr>]
   \<and> quantity_sum (group_rows (merge_on_asset returns_long_short positions_long_short) ''2020-01-03'' 2) = 0
   \<and> NInf \<noteq> NaN"
  using build_long_short
  by (simp add: quantity_sum_def group_rows_def merge_on_asset_def returns_long_short_def positions_long_short_def the_fin_def)

section \<open>Facts about the cumulative-return curve\<close>





lemma plot_flat: "plot_cumulative_returns portfolio_flat 1 =
    [(''2020-01-03'', Fin 0), (''2020-01-06'', Fin 0)]"
  by (simp add: plot_cumulative_returns_def portfolio_flat_def cumsum_def Let_def)


section \<open>Claims about the report renderer\<close>




section \<open>Facts about least squares through the origin\<close>














section \<open>Claims about the factor-exposure estimator\<close>



section \<open>Facts about the per-fund loop\<close>








section \<open>Claims about the orchestrator\<close>



end
